theory Spec2Isabelle
  imports Main "HOL-Library.Word"
begin

section \<open>Configuration and data (firmware/src/main.cpp, lines 16-53)\<close>

text \<open>
  The firmware targets the ESP32-C3, a 32-bit core: \<open>unsigned long\<close> (the type of
  \<open>millis()\<close>, \<open>lastHeartbeat\<close> and \<open>clientConnectedTime\<close>) and \<open>uint32_t\<close>
  (\<open>heartbeatCount\<close>) are both 32-bit unsigned integers whose arithmetic wraps.
\<close>

type_synonym u32 = "32 word"

type_synonym IPAddress = "nat \<times> nat \<times> nat \<times> nat"

definition AP_SSID :: string where
  "AP_SSID = ''AndroidAutoWiFi''"

definition AP_PASSWORD :: string where
  "AP_PASSWORD = ''android123''"

definition AP_CHANNEL :: int where
  "AP_CHANNEL = 6"

definition AP_HIDDEN :: bool where
  "AP_HIDDEN = False"

definition AP_MAX_CONNECTIONS :: int where
  "AP_MAX_CONNECTIONS = 1"

definition AP_IP :: IPAddress where
  "AP_IP = (192, 168, 4, 1)"

definition AP_GATEWAY :: IPAddress where
  "AP_GATEWAY = (192, 168, 4, 1)"

definition AP_SUBNET :: IPAddress where
  "AP_SUBNET = (255, 255, 255, 0)"

definition AA_PORT :: int where
  "AA_PORT = 5288"

datatype State = INIT | AP_STARTING | AP_READY | CLIENT_CONNECTED | AA_ACTIVE | ERROR

text \<open>
  A \<open>WiFiClient\<close> object either holds a socket or holds none (default-constructed, or
  after \<open>stop()\<close>). A socket is known by its descriptor and the peer's address.
\<close>

record socket =
  fd :: nat
  remoteIP :: IPAddress

type_synonym WiFiClient = "socket option"

text \<open>The globals of the program.\<close>

record bridge =
  currentState :: State
  lastHeartbeat :: u32
  clientConnectedTime :: u32
  heartbeatCount :: u32
  aaClient :: WiFiClient

definition initial :: bridge where
  "initial = \<lparr>currentState = INIT, lastHeartbeat = 0, clientConnectedTime = 0,
              heartbeatCount = 0, aaClient = None\<rparr>"

section \<open>The collaborators: radio, listener, sockets, clock, diagnostic output\<close>

text \<open>
  The Arduino core (\<open>WiFi\<close>, \<open>WiFiServer\<close>, \<open>WiFiClient\<close>, \<open>millis\<close>, \<open>delay\<close>,
  \<open>ESP\<close>) is not part of the repository. It is taken as a parameter: a \<open>world\<close> holds
  what the collaborators will answer, and a trace of the calls the program makes on them.
  The trace also records every assignment to \<open>currentState\<close>, so that a state that is
  entered and left inside one call stays visible. Of the diagnostic output only the
  heartbeat line of \<open>printStatus\<close> is recorded.
\<close>

datatype event =
    E_printStatus u32 string nat nat
  | E_delay nat
  | E_state State
  | E_WiFi_disconnect bool
  | E_WiFi_mode_AP
  | E_softAPConfig IPAddress IPAddress IPAddress
  | E_softAP string string int bool int
  | E_server_begin int
  | E_server_setNoDelay bool
  | E_accept socket
  | E_stop socket
  | E_read int

record world =
  millis :: u32                \<comment> \<open>the clock, in milliseconds, as \<open>millis()\<close> reads it\<close>
  freeHeap :: nat              \<comment> \<open>\<open>ESP.getFreeHeap()\<close>\<close>
  stationNum :: nat            \<comment> \<open>\<open>WiFi.softAPgetStationNum()\<close>\<close>
  softAPConfig_ok :: bool      \<comment> \<open>what \<open>WiFi.softAPConfig\<close> will return\<close>
  softAP_ok :: bool            \<comment> \<open>what \<open>WiFi.softAP\<close> will return\<close>
  backlog :: "socket list"     \<comment> \<open>inbound connections pending at \<open>aaServer\<close>, oldest first\<close>
  peers_up :: "nat set"        \<comment> \<open>descriptors whose peer is still connected\<close>
  rx :: "int list"             \<comment> \<open>what the successive \<open>aaClient.read\<close> calls will return
                                   while \<open>aaClient.available()\<close> is nonzero\<close>
  trace :: "event list"        \<comment> \<open>the calls made so far, oldest first\<close>

definition emit :: "event \<Rightarrow> world \<Rightarrow> world" where
  "emit e w = w\<lparr>trace := trace w @ [e]\<rparr>"

definition delay :: "nat \<Rightarrow> world \<Rightarrow> world" where
  "delay ms w = emit (E_delay ms) (w\<lparr>millis := millis w + of_nat ms\<rparr>)"

text \<open>\<open>WiFiClient::connected()\<close>; \<open>operator bool\<close> of a \<open>WiFiClient\<close> is the same test.\<close>

definition connected :: "WiFiClient \<Rightarrow> world \<Rightarrow> bool" where
  "connected c w = (case c of None \<Rightarrow> False | Some s \<Rightarrow> fd s \<in> peers_up w)"

text \<open>\<open>WiFiClient::stop()\<close>: releases the socket if one is held, and leaves the object empty.\<close>

definition stop :: "WiFiClient \<Rightarrow> world \<Rightarrow> WiFiClient \<times> world" where
  "stop c w = (case c of None \<Rightarrow> (None, w) | Some s \<Rightarrow> (None, emit (E_stop s) w))"

text \<open>\<open>WiFiClient::available()\<close> and \<open>WiFiClient::read(buffer, size)\<close> on \<open>aaClient\<close>.\<close>

definition available :: "world \<Rightarrow> bool" where
  "available w = (rx w \<noteq> [])"

definition read :: "world \<Rightarrow> int \<times> world" where
  "read w = (case rx w of [] \<Rightarrow> (-1, w)
             | len # rest \<Rightarrow> (len, emit (E_read len) (w\<lparr>rx := rest\<rparr>)))"

text \<open>\<open>WiFiServer::hasClient()\<close> and \<open>WiFiServer::available()\<close> on \<open>aaServer\<close>.\<close>

definition hasClient :: "world \<Rightarrow> bool" where
  "hasClient w = (backlog w \<noteq> [])"

definition server_available :: "world \<Rightarrow> WiFiClient \<times> world" where
  "server_available w = (case backlog w of [] \<Rightarrow> (None, w)
             | s # rest \<Rightarrow> (Some s, emit (E_accept s) (w\<lparr>backlog := rest\<rparr>)))"

section \<open>The program\<close>

text \<open>An assignment to \<open>currentState\<close>.\<close>

definition set_state :: "State \<Rightarrow> bridge \<times> world \<Rightarrow> bridge \<times> world" where
  "set_state s p = (case p of (b, w) \<Rightarrow> (b\<lparr>currentState := s\<rparr>, emit (E_state s) w))"

fun stateToString :: "State \<Rightarrow> string" where
  "stateToString INIT = ''INIT''"
| "stateToString AP_STARTING = ''AP_STARTING''"
| "stateToString AP_READY = ''AP_READY''"
| "stateToString CLIENT_CONNECTED = ''CLIENT_CONNECTED''"
| "stateToString AA_ACTIVE = ''AA_ACTIVE''"
| "stateToString ERROR = ''ERROR''"

definition printStatus :: "bridge \<times> world \<Rightarrow> bridge \<times> world" where
  "printStatus p = (case p of (b, w) \<Rightarrow>
     (b, emit (E_printStatus (heartbeatCount b) (stateToString (currentState b))
                (freeHeap w) (stationNum w)) w))"

text \<open>\<open>setupWiFiAP()\<close>, lines 151-188. \<open>aaServer\<close> was constructed on \<open>AA_PORT\<close>.\<close>

definition setupWiFiAP :: "bridge \<times> world \<Rightarrow> bridge \<times> world" where
  "setupWiFiAP p =
    (case set_state AP_STARTING p of (b, w) \<Rightarrow>
       let w1 = emit E_WiFi_mode_AP (emit (E_WiFi_disconnect True) w);
           w2 = emit (E_softAPConfig AP_IP AP_GATEWAY AP_SUBNET) w1
       in if \<not> softAPConfig_ok w2 then set_state ERROR (b, w2)
          else
            let w3 = emit (E_softAP AP_SSID AP_PASSWORD AP_CHANNEL AP_HIDDEN
                             AP_MAX_CONNECTIONS) w2
            in if \<not> softAP_ok w3 then set_state ERROR (b, w3)
               else
                 let w4 = emit (E_server_setNoDelay True) (emit (E_server_begin AA_PORT) w3)
                 in set_state AP_READY (b, w4))"

text \<open>
  The read loop of \<open>handleClient()\<close>, lines 203-220. It ends when \<open>available()\<close>
  answers zero; the world holds finitely many pending reads.
\<close>

function drain :: "bridge \<times> world \<Rightarrow> bridge \<times> world" where
  "drain (b, w) =
     (if available w then
        (case read w of (len, w1) \<Rightarrow>
           if len > 0 then
             (if currentState b = CLIENT_CONNECTED then drain (set_state AA_ACTIVE (b, w1))
              else drain (b, w1))
           else drain (b, w1))
      else (b, w))"
  by pat_completeness auto
termination
  by (relation "measure (\<lambda>(b, w). length (rx w))")
     (auto simp: available_def read_def set_state_def emit_def split: list.splits)

declare drain.simps [simp del]

text \<open>\<open>handleClient()\<close>, lines 194-221.\<close>

definition handleClient :: "bridge \<times> world \<Rightarrow> bridge \<times> world" where
  "handleClient p = (case p of (b, w) \<Rightarrow>
     if \<not> connected (aaClient b) w \<or> \<not> connected (aaClient b) w then
       (case set_state AP_READY (b, w) of (b1, w1) \<Rightarrow>
          (case stop (aaClient b1) w1 of (c, w2) \<Rightarrow> (b1\<lparr>aaClient := c\<rparr>, w2)))
     else drain (b, w))"

text \<open>
  \<open>loop()\<close>, lines 96-145: one tick. It reads the clock once, runs the heartbeat step
  (lines 100-104), dispatches on the state (the \<open>switch\<close>, lines 107-141) and delays 10 ms.
\<close>

definition heartbeat :: "u32 \<Rightarrow> bridge \<times> world \<Rightarrow> bridge \<times> world" where
  "heartbeat now p = (case p of (b, w) \<Rightarrow>
     if now - lastHeartbeat b \<ge> 5000 then
       printStatus (b\<lparr>lastHeartbeat := now, heartbeatCount := heartbeatCount b + 1\<rparr>, w)
     else (b, w))"

definition dispatch :: "u32 \<Rightarrow> bridge \<times> world \<Rightarrow> bridge \<times> world" where
  "dispatch now p = (case p of (b, w) \<Rightarrow>
     (case currentState b of
        AP_READY \<Rightarrow>
          if hasClient w then
            (if connected (aaClient b) w \<and> connected (aaClient b) w then
               (case server_available w of (reject, w1) \<Rightarrow>
                  (case stop reject w1 of (reject', w2) \<Rightarrow> (b, w2)))
             else
               (case server_available w of (c, w1) \<Rightarrow>
                  if connected c w1 then
                    (case set_state CLIENT_CONNECTED (b\<lparr>aaClient := c\<rparr>, w1) of
                       (b1, w2) \<Rightarrow> (b1\<lparr>clientConnectedTime := now\<rparr>, w2))
                  else (b\<lparr>aaClient := c\<rparr>, w1)))
          else (b, w)
      | CLIENT_CONNECTED \<Rightarrow> handleClient (b, w)
      | AA_ACTIVE \<Rightarrow> handleClient (b, w)
      | ERROR \<Rightarrow> setupWiFiAP (b, delay 5000 w)
      | _ \<Rightarrow> (b, w)))"

definition loop :: "bridge \<times> world \<Rightarrow> bridge \<times> world" where
  "loop p = (case p of (b, w) \<Rightarrow>
     (case dispatch (millis w) (heartbeat (millis w) (b, w)) of
        (b1, w1) \<Rightarrow> (b1, delay 10 w1)))"

text \<open>\<open>setup()\<close>, lines 68-90, without its banner.\<close>

definition setup_main :: "bridge \<times> world \<Rightarrow> bridge \<times> world" where
  "setup_main p = (case p of (b, w) \<Rightarrow> setupWiFiAP (b, delay 1000 w))"

section \<open>Runs and observations\<close>

text \<open>
  A run of ticks: before each tick the collaborators may be in any state (the next world
  of the list), and the trace carries on from the tick before.
\<close>

fun run :: "bridge \<times> event list \<Rightarrow> world list \<Rightarrow> bridge \<times> event list" where
  "run (b, tr) [] = (b, tr)"
| "run (b, tr) (w # ws) =
     (case loop (b, w\<lparr>trace := tr\<rparr>) of (b1, w1) \<Rightarrow> run (b1, trace w1) ws)"

text \<open>The states the program can be in: after \<open>setup()\<close>, and after any tick from there.\<close>

inductive reachable :: "bridge \<Rightarrow> bool" where
  boot: "reachable (fst (setup_main (initial, w)))"
| tick: "reachable b \<Longrightarrow> reachable (fst (loop (b, w)))"

text \<open>What one tick adds to the trace.\<close>

definition tick_events :: "bridge \<Rightarrow> world \<Rightarrow> event list" where
  "tick_events b w = drop (length (trace w)) (trace (snd (loop (b, w))))"

text \<open>The heartbeats in a trace: the lines \<open>printStatus\<close> wrote.\<close>

fun is_heartbeat :: "event \<Rightarrow> bool" where
  "is_heartbeat (E_printStatus n s h c) = True"
| "is_heartbeat e = False"

definition heartbeats_fired :: "event list \<Rightarrow> nat" where
  "heartbeats_fired es = length (filter is_heartbeat es)"

text \<open>The lengths returned by the reads in a trace, and its delays.\<close>

fun reads_of :: "event list \<Rightarrow> int list" where
  "reads_of [] = []"
| "reads_of (E_read len # es) = len # reads_of es"
| "reads_of (e # es) = reads_of es"

fun delays_of :: "event list \<Rightarrow> nat list" where
  "delays_of [] = []"
| "delays_of (E_delay ms # es) = ms # delays_of es"
| "delays_of (e # es) = delays_of es"

text \<open>The sockets released in a trace, and the number of bring-ups started in it.\<close>

fun stops_of :: "event list \<Rightarrow> socket list" where
  "stops_of [] = []"
| "stops_of (E_stop s # es) = s # stops_of es"
| "stops_of (e # es) = stops_of es"

fun bring_ups_of :: "event list \<Rightarrow> nat" where
  "bring_ups_of [] = 0"
| "bring_ups_of (E_state AP_STARTING # es) = Suc (bring_ups_of es)"
| "bring_ups_of (e # es) = bring_ups_of es"

text \<open>The trace of the read loop, from the state it starts in and the pending reads.\<close>

fun drain_events :: "State \<Rightarrow> int list \<Rightarrow> event list" where
  "drain_events s [] = []"
| "drain_events s (len # rest) =
     E_read len #
       (if 0 < len \<and> s = CLIENT_CONNECTED then E_state AA_ACTIVE # drain_events AA_ACTIVE rest
        else drain_events s rest)"

text \<open>Example data: a world where nothing is pending and every call succeeds, two peers.\<close>

definition quiet_world :: world where
  "quiet_world = \<lparr>millis = 0, freeHeap = 200000, stationNum = 0, softAPConfig_ok = True,
                   softAP_ok = True, backlog = [], peers_up = {}, rx = [], trace = []\<rparr>"

definition peerX :: socket where
  "peerX = \<lparr>fd = 1, remoteIP = (192, 168, 4, 2)\<rparr>"

definition peerY :: socket where
  "peerY = \<lparr>fd = 2, remoteIP = (192, 168, 4, 3)\<rparr>"

text \<open>The globals in a given state, with \<open>peerX\<close> held by \<open>aaClient\<close>.\<close>

definition session_bridge :: "State \<Rightarrow> bridge" where
  "session_bridge s = \<lparr>currentState = s, lastHeartbeat = 0, clientConnectedTime = 0,
                        heartbeatCount = 0, aaClient = Some peerX\<rparr>"

text \<open>The calls one bring-up makes; they depend on the world's two answers only.\<close>

definition bring_up_events :: "world \<Rightarrow> event list" where
  "bring_up_events w = drop (length (trace w)) (trace (snd (setupWiFiAP (initial, w))))"

text \<open>
  What the heartbeat step of a tick adds to the trace, and what it does to the globals.
\<close>

definition hb_events :: "bridge \<Rightarrow> world \<Rightarrow> event list" where
  "hb_events b w = drop (length (trace w)) (trace (snd (heartbeat (millis w) (b, w))))"

definition hb_bridge :: "bridge \<Rightarrow> world \<Rightarrow> bridge" where
  "hb_bridge b w = fst (heartbeat (millis w) (b, w))"

section \<open>Bring-up\<close>

lemma setupWiFiAP_eval:
  "setupWiFiAP (b, w) =
     (if \<not> softAPConfig_ok w then
        (b\<lparr>currentState := ERROR\<rparr>,
         w\<lparr>trace := trace w @ [E_state AP_STARTING, E_WiFi_disconnect True, E_WiFi_mode_AP,
             E_softAPConfig AP_IP AP_GATEWAY AP_SUBNET, E_state ERROR]\<rparr>)
      else if \<not> softAP_ok w then
        (b\<lparr>currentState := ERROR\<rparr>,
         w\<lparr>trace := trace w @ [E_state AP_STARTING, E_WiFi_disconnect True, E_WiFi_mode_AP,
             E_softAPConfig AP_IP AP_GATEWAY AP_SUBNET,
             E_softAP AP_SSID AP_PASSWORD AP_CHANNEL AP_HIDDEN AP_MAX_CONNECTIONS,
             E_state ERROR]\<rparr>)
      else
        (b\<lparr>currentState := AP_READY\<rparr>,
         w\<lparr>trace := trace w @ [E_state AP_STARTING, E_WiFi_disconnect True, E_WiFi_mode_AP,
             E_softAPConfig AP_IP AP_GATEWAY AP_SUBNET,
             E_softAP AP_SSID AP_PASSWORD AP_CHANNEL AP_HIDDEN AP_MAX_CONNECTIONS,
             E_server_begin AA_PORT, E_server_setNoDelay True, E_state AP_READY]\<rparr>))"
  by (simp add: setupWiFiAP_def set_state_def emit_def Let_def)

text \<open>
  Claim C3. Bring-up has three outcomes. If \<open>softAPConfig\<close> fails, the state becomes
  \<open>ERROR\<close> and \<open>softAP\<close> is never called (the access point is not started). If
  \<open>softAPConfig\<close> succeeds and \<open>softAP\<close> fails, the state becomes \<open>ERROR\<close>.
  Otherwise the listener is opened on \<open>AA_PORT\<close>, set to no-delay, and the state becomes
  \<open>AP_READY\<close>.
\<close>

theorem C3_bring_up_outcomes:
  "(\<not> softAPConfig_ok w \<longrightarrow>
      currentState (fst (setupWiFiAP (b, w))) = ERROR \<and>
      trace (snd (setupWiFiAP (b, w))) = trace w @
        [E_state AP_STARTING, E_WiFi_disconnect True, E_WiFi_mode_AP,
         E_softAPConfig AP_IP AP_GATEWAY AP_SUBNET, E_state ERROR]) \<and>
   (softAPConfig_ok w \<and> \<not> softAP_ok w \<longrightarrow>
      currentState (fst (setupWiFiAP (b, w))) = ERROR \<and>
      trace (snd (setupWiFiAP (b, w))) = trace w @
        [E_state AP_STARTING, E_WiFi_disconnect True, E_WiFi_mode_AP,
         E_softAPConfig AP_IP AP_GATEWAY AP_SUBNET,
         E_softAP AP_SSID AP_PASSWORD AP_CHANNEL AP_HIDDEN AP_MAX_CONNECTIONS,
         E_state ERROR]) \<and>
   (softAPConfig_ok w \<and> softAP_ok w \<longrightarrow>
      currentState (fst (setupWiFiAP (b, w))) = AP_READY \<and>
      trace (snd (setupWiFiAP (b, w))) = trace w @
        [E_state AP_STARTING, E_WiFi_disconnect True, E_WiFi_mode_AP,
         E_softAPConfig AP_IP AP_GATEWAY AP_SUBNET,
         E_softAP AP_SSID AP_PASSWORD AP_CHANNEL AP_HIDDEN AP_MAX_CONNECTIONS,
         E_server_begin AA_PORT, E_server_setNoDelay True, E_state AP_READY])"
  by (simp add: setupWiFiAP_eval)

theorem C3_bring_up_outcomes_witness:
  "currentState (fst (setupWiFiAP (initial, quiet_world\<lparr>softAPConfig_ok := False\<rparr>))) = ERROR \<and>
   trace (snd (setupWiFiAP (initial, quiet_world\<lparr>softAPConfig_ok := False\<rparr>))) =
     [E_state AP_STARTING, E_WiFi_disconnect True, E_WiFi_mode_AP,
      E_softAPConfig (192, 168, 4, 1) (192, 168, 4, 1) (255, 255, 255, 0), E_state ERROR] \<and>
   currentState (fst (setupWiFiAP (initial, quiet_world\<lparr>softAP_ok := False\<rparr>))) = ERROR \<and>
   trace (snd (setupWiFiAP (initial, quiet_world\<lparr>softAP_ok := False\<rparr>))) =
     [E_state AP_STARTING, E_WiFi_disconnect True, E_WiFi_mode_AP,
      E_softAPConfig (192, 168, 4, 1) (192, 168, 4, 1) (255, 255, 255, 0),
      E_softAP ''AndroidAutoWiFi'' ''android123'' 6 False 1, E_state ERROR] \<and>
   currentState (fst (setupWiFiAP (initial, quiet_world))) = AP_READY \<and>
   trace (snd (setupWiFiAP (initial, quiet_world))) =
     [E_state AP_STARTING, E_WiFi_disconnect True, E_WiFi_mode_AP,
      E_softAPConfig (192, 168, 4, 1) (192, 168, 4, 1) (255, 255, 255, 0),
      E_softAP ''AndroidAutoWiFi'' ''android123'' 6 False 1,
      E_server_begin 5288, E_server_setNoDelay True, E_state AP_READY]"
  using C3_bring_up_outcomes [of "quiet_world\<lparr>softAPConfig_ok := False\<rparr>" initial]
        C3_bring_up_outcomes [of "quiet_world\<lparr>softAP_ok := False\<rparr>" initial]
        C3_bring_up_outcomes [of quiet_world initial]
  by (simp add: quiet_world_def AP_IP_def AP_GATEWAY_def AP_SUBNET_def AP_SSID_def
        AP_PASSWORD_def AP_CHANNEL_def AP_HIDDEN_def AP_MAX_CONNECTIONS_def AA_PORT_def)

section \<open>Facts about the read loop\<close>

lemma drain_bridge:
  "lastHeartbeat (fst (drain p)) = lastHeartbeat (fst p) \<and>
   heartbeatCount (fst (drain p)) = heartbeatCount (fst p) \<and>
   clientConnectedTime (fst (drain p)) = clientConnectedTime (fst p) \<and>
   aaClient (fst (drain p)) = aaClient (fst p)"
proof (induction p rule: drain.induct)
  case (1 b w)
  show ?case
    using "1.IH"
    by (subst (1 2 3 4) drain.simps) (auto simp: set_state_def split: prod.splits)
qed

lemma drain_state:
  "currentState (fst (drain (b, w))) =
     (if currentState b = CLIENT_CONNECTED \<and> (\<exists>len \<in> set (rx w). 0 < len) then AA_ACTIVE
      else currentState b)"
proof (induction "(b, w)" arbitrary: b w rule: drain.induct)
  case (1 b w)
  show ?case
  proof (cases "rx w")
    case Nil
    then show ?thesis by (subst drain.simps) (simp add: available_def)
  next
    case (Cons len rest)
    then show ?thesis
      using "1.hyps"
      by (subst drain.simps) (auto simp: available_def read_def set_state_def emit_def)
  qed
qed

lemma drain_world:
  "backlog (snd (drain p)) = backlog (snd p) \<and>
   peers_up (snd (drain p)) = peers_up (snd p) \<and>
   millis (snd (drain p)) = millis (snd p) \<and>
   rx (snd (drain p)) = []"
proof (induction p rule: drain.induct)
  case (1 b w)
  show ?case
  proof (cases "rx w")
    case Nil
    then show ?thesis by (subst (1 2 3 4) drain.simps) (simp add: available_def)
  next
    case (Cons len rest)
    then show ?thesis
      using "1.IH"
      by (subst (1 2 3 4) drain.simps) (auto simp: available_def read_def set_state_def emit_def)
  qed
qed

lemma drain_trace:
  "trace (snd (drain (b, w))) = trace w @ drain_events (currentState b) (rx w)"
proof (induction "(b, w)" arbitrary: b w rule: drain.induct)
  case (1 b w)
  show ?case
  proof (cases "rx w")
    case Nil
    then show ?thesis by (subst drain.simps) (simp add: available_def)
  next
    case (Cons len rest)
    then show ?thesis
      using "1.hyps"
      by (subst drain.simps) (auto simp: available_def read_def set_state_def emit_def)
  qed
qed

lemma drain_events_heartbeats: "filter is_heartbeat (drain_events s xs) = []"
  by (induction xs arbitrary: s) simp_all

lemma drain_events_reads: "reads_of (drain_events s xs) = xs"
  by (induction xs arbitrary: s) simp_all

lemma drain_events_delays: "delays_of (drain_events s xs) = []"
  by (induction xs arbitrary: s) simp_all

section \<open>The heartbeat step\<close>

lemma heartbeat_eval:
  "heartbeat n (b, w) =
     (if 5000 \<le> n - lastHeartbeat b then
        (b\<lparr>lastHeartbeat := n, heartbeatCount := heartbeatCount b + 1\<rparr>,
         w\<lparr>trace := trace w @ [E_printStatus (heartbeatCount b + 1)
               (stateToString (currentState b)) (freeHeap w) (stationNum w)]\<rparr>)
      else (b, w))"
  by (simp add: heartbeat_def printStatus_def emit_def)

lemma hb_events_eval:
  "hb_events b w =
     (if 5000 \<le> millis w - lastHeartbeat b
      then [E_printStatus (heartbeatCount b + 1) (stateToString (currentState b))
              (freeHeap w) (stationNum w)]
      else [])"
  by (simp add: hb_events_def heartbeat_eval)

lemma hb_bridge_eval:
  "hb_bridge b w =
     (if 5000 \<le> millis w - lastHeartbeat b
      then b\<lparr>lastHeartbeat := millis w, heartbeatCount := heartbeatCount b + 1\<rparr>
      else b)"
  by (simp add: hb_bridge_def heartbeat_eval)

section \<open>The session handler\<close>

lemma handleClient_down:
  "\<not> connected (aaClient b) w \<Longrightarrow>
   handleClient (b, w) =
     (b\<lparr>currentState := AP_READY, aaClient := None\<rparr>,
      w\<lparr>trace := trace w @ E_state AP_READY # (case aaClient b of None \<Rightarrow> [] | Some s \<Rightarrow> [E_stop s])\<rparr>)"
  by (simp add: handleClient_def set_state_def stop_def emit_def split: option.splits)

lemma handleClient_up:
  "connected (aaClient b) w \<Longrightarrow> handleClient (b, w) = drain (b, w)"
  by (simp add: handleClient_def)

lemma connected_trace [simp]: "connected c (w\<lparr>trace := t\<rparr>) = connected c w"
  by (simp add: connected_def split: option.splits)

section \<open>One tick, by state\<close>

lemma heartbeat_hb:
  "heartbeat (millis w) (b, w) = (hb_bridge b w, w\<lparr>trace := trace w @ hb_events b w\<rparr>)"
  by (simp add: heartbeat_eval hb_bridge_eval hb_events_eval)

lemma hb_bridge_simps [simp]:
  "currentState (hb_bridge b w) = currentState b"
  "aaClient (hb_bridge b w) = aaClient b"
  "clientConnectedTime (hb_bridge b w) = clientConnectedTime b"
  by (simp_all add: hb_bridge_eval)

lemma loop_session_down:
  assumes "currentState b = CLIENT_CONNECTED \<or> currentState b = AA_ACTIVE"
      and "\<not> connected (aaClient b) w"
  shows "loop (b, w) =
     ((hb_bridge b w)\<lparr>currentState := AP_READY, aaClient := None\<rparr>,
      w\<lparr>millis := millis w + 10,
        trace := trace w @ hb_events b w @ E_state AP_READY #
          (case aaClient b of None \<Rightarrow> [] | Some s \<Rightarrow> [E_stop s]) @ [E_delay 10]\<rparr>)"
  using assms
  by (auto simp: loop_def dispatch_def heartbeat_hb handleClient_down delay_def emit_def)

lemma loop_session_up:
  assumes "currentState b = CLIENT_CONNECTED \<or> currentState b = AA_ACTIVE"
      and "connected (aaClient b) w"
  shows "loop (b, w) =
     (case drain (hb_bridge b w, w\<lparr>trace := trace w @ hb_events b w\<rparr>) of
        (b1, w1) \<Rightarrow> (b1, delay 10 w1))"
  using assms
  by (auto simp: loop_def dispatch_def heartbeat_hb handleClient_up)

lemma loop_error:
  assumes "currentState b = ERROR"
  shows "loop (b, w) =
     (case setupWiFiAP (hb_bridge b w, delay 5000 (w\<lparr>trace := trace w @ hb_events b w\<rparr>)) of
        (b1, w1) \<Rightarrow> (b1, delay 10 w1))"
  using assms
  by (auto simp: loop_def dispatch_def heartbeat_hb)

lemma loop_idle:
  assumes "currentState b = INIT \<or> currentState b = AP_STARTING"
  shows "loop (b, w) =
     (hb_bridge b w, w\<lparr>millis := millis w + 10, trace := trace w @ hb_events b w @ [E_delay 10]\<rparr>)"
  using assms
  by (auto simp: loop_def dispatch_def heartbeat_hb delay_def emit_def)

lemma connected_backlog [simp]: "connected c (w\<lparr>backlog := t\<rparr>) = connected c w"
  by (simp add: connected_def split: option.splits)

lemma connected_Some: "connected (Some p) w = (fd p \<in> peers_up w)"
  by (simp add: connected_def)

lemma loop_ready_idle:
  assumes "currentState b = AP_READY" and "backlog w = []"
  shows "loop (b, w) =
     (hb_bridge b w, w\<lparr>millis := millis w + 10, trace := trace w @ hb_events b w @ [E_delay 10]\<rparr>)"
  using assms
  by (auto simp: loop_def dispatch_def heartbeat_hb hasClient_def delay_def emit_def)

lemma loop_ready_reject:
  assumes "currentState b = AP_READY" and "backlog w = p # rest" and "connected (aaClient b) w"
  shows "loop (b, w) =
     (hb_bridge b w,
      w\<lparr>millis := millis w + 10, backlog := rest,
        trace := trace w @ hb_events b w @ [E_accept p, E_stop p, E_delay 10]\<rparr>)"
  using assms
  by (auto simp: loop_def dispatch_def heartbeat_hb hasClient_def server_available_def
        stop_def delay_def emit_def)

lemma loop_ready_admit:
  assumes "currentState b = AP_READY" and "backlog w = p # rest"
      and "\<not> connected (aaClient b) w" and "fd p \<in> peers_up w"
  shows "loop (b, w) =
     ((hb_bridge b w)\<lparr>currentState := CLIENT_CONNECTED, clientConnectedTime := millis w,
                       aaClient := Some p\<rparr>,
      w\<lparr>millis := millis w + 10, backlog := rest,
        trace := trace w @ hb_events b w @ [E_accept p, E_state CLIENT_CONNECTED, E_delay 10]\<rparr>)"
  using assms
  by (auto simp: loop_def dispatch_def heartbeat_hb hasClient_def server_available_def
        set_state_def connected_Some delay_def emit_def)

lemma loop_ready_stale:
  assumes "currentState b = AP_READY" and "backlog w = p # rest"
      and "\<not> connected (aaClient b) w" and "fd p \<notin> peers_up w"
  shows "loop (b, w) =
     ((hb_bridge b w)\<lparr>aaClient := Some p\<rparr>,
      w\<lparr>millis := millis w + 10, backlog := rest,
        trace := trace w @ hb_events b w @ [E_accept p, E_delay 10]\<rparr>)"
  using assms
  by (auto simp: loop_def dispatch_def heartbeat_hb hasClient_def server_available_def
        set_state_def connected_Some delay_def emit_def)

lemma loop_session_up_eval:
  assumes "currentState b = CLIENT_CONNECTED \<or> currentState b = AA_ACTIVE"
      and "connected (aaClient b) w"
  shows "currentState (fst (loop (b, w))) =
           (if currentState b = CLIENT_CONNECTED \<and> (\<exists>len \<in> set (rx w). 0 < len) then AA_ACTIVE
            else currentState b)"
    and "aaClient (fst (loop (b, w))) = aaClient b"
    and "clientConnectedTime (fst (loop (b, w))) = clientConnectedTime b"
    and "lastHeartbeat (fst (loop (b, w))) = lastHeartbeat (hb_bridge b w)"
    and "heartbeatCount (fst (loop (b, w))) = heartbeatCount (hb_bridge b w)"
    and "trace (snd (loop (b, w))) =
           trace w @ hb_events b w @ drain_events (currentState b) (rx w) @ [E_delay 10]"
    and "backlog (snd (loop (b, w))) = backlog w"
proof -
  let ?p = "(hb_bridge b w, w\<lparr>trace := trace w @ hb_events b w\<rparr>)"
  have l: "loop (b, w) = (fst (drain ?p), delay 10 (snd (drain ?p)))"
    using loop_session_up [OF assms] by (simp add: split_beta)
  show "currentState (fst (loop (b, w))) =
           (if currentState b = CLIENT_CONNECTED \<and> (\<exists>len \<in> set (rx w). 0 < len) then AA_ACTIVE
            else currentState b)"
    by (simp add: l drain_state)
  show "aaClient (fst (loop (b, w))) = aaClient b"
    using drain_bridge [of ?p] by (simp add: l)
  show "clientConnectedTime (fst (loop (b, w))) = clientConnectedTime b"
    using drain_bridge [of ?p] by (simp add: l)
  show "lastHeartbeat (fst (loop (b, w))) = lastHeartbeat (hb_bridge b w)"
    using drain_bridge [of ?p] by (simp add: l)
  show "heartbeatCount (fst (loop (b, w))) = heartbeatCount (hb_bridge b w)"
    using drain_bridge [of ?p] by (simp add: l)
  show "trace (snd (loop (b, w))) =
           trace w @ hb_events b w @ drain_events (currentState b) (rx w) @ [E_delay 10]"
    by (simp add: l delay_def emit_def drain_trace)
  show "backlog (snd (loop (b, w))) = backlog w"
    using drain_world [of ?p] by (simp add: l delay_def emit_def)
qed

lemma loop_error_eval:
  assumes "currentState b = ERROR"
  shows "loop (b, w) =
     ((hb_bridge b w)\<lparr>currentState := (if softAPConfig_ok w \<and> softAP_ok w then AP_READY else ERROR)\<rparr>,
      w\<lparr>millis := millis w + 5010,
        trace := trace w @ hb_events b w @
          [E_delay 5000, E_state AP_STARTING, E_WiFi_disconnect True, E_WiFi_mode_AP,
           E_softAPConfig AP_IP AP_GATEWAY AP_SUBNET] @
          (if softAPConfig_ok w then
             E_softAP AP_SSID AP_PASSWORD AP_CHANNEL AP_HIDDEN AP_MAX_CONNECTIONS #
               (if softAP_ok w then [E_server_begin AA_PORT, E_server_setNoDelay True, E_state AP_READY]
                else [E_state ERROR])
           else [E_state ERROR]) @ [E_delay 10]\<rparr>)"
  using assms
  by (simp add: loop_error setupWiFiAP_eval delay_def emit_def)

lemma tick_events_eq:
  "trace (snd (loop (b, w))) = trace w @ es \<Longrightarrow> tick_events b w = es"
  by (simp add: tick_events_def)

lemma tick_decomp:
  "\<exists>es. trace (snd (loop (b, w))) = trace w @ hb_events b w @ es \<and>
        filter is_heartbeat es = [] \<and>
        lastHeartbeat (fst (loop (b, w))) = lastHeartbeat (hb_bridge b w) \<and>
        heartbeatCount (fst (loop (b, w))) = heartbeatCount (hb_bridge b w)"
proof (cases "currentState b")
  case INIT
  then show ?thesis by (simp add: loop_idle)
next
  case AP_STARTING
  then show ?thesis by (simp add: loop_idle)
next
  case AP_READY
  show ?thesis
  proof (cases "backlog w")
    case Nil
    with AP_READY show ?thesis by (simp add: loop_ready_idle)
  next
    case (Cons p rest)
    show ?thesis
    proof (cases "connected (aaClient b) w")
      case True
      with AP_READY Cons show ?thesis by (simp add: loop_ready_reject)
    next
      case False
      with AP_READY Cons show ?thesis
        by (cases "fd p \<in> peers_up w") (simp_all add: loop_ready_admit loop_ready_stale)
    qed
  qed
next
  case CLIENT_CONNECTED
  then have s: "currentState b = CLIENT_CONNECTED \<or> currentState b = AA_ACTIVE" by simp
  show ?thesis
  proof (cases "connected (aaClient b) w")
    case True
    show ?thesis
      using loop_session_up_eval(4,5,6) [OF s True]
      by (simp add: drain_events_heartbeats)
  next
    case False
    show ?thesis
      by (simp add: loop_session_down [OF s False] split: option.splits)
  qed
next
  case AA_ACTIVE
  then have s: "currentState b = CLIENT_CONNECTED \<or> currentState b = AA_ACTIVE" by simp
  show ?thesis
  proof (cases "connected (aaClient b) w")
    case True
    show ?thesis
      using loop_session_up_eval(4,5,6) [OF s True]
      by (simp add: drain_events_heartbeats)
  next
    case False
    show ?thesis
      by (simp add: loop_session_down [OF s False] split: option.splits)
  qed
next
  case ERROR
  then show ?thesis by (simp add: loop_error_eval)
qed

lemma hb_events_fired:
  "heartbeats_fired (hb_events b w) = (if 5000 \<le> millis w - lastHeartbeat b then 1 else 0)"
  by (simp add: hb_events_eval heartbeats_fired_def)

lemma tick_heartbeats:
  "heartbeats_fired (tick_events b w) = (if 5000 \<le> millis w - lastHeartbeat b then 1 else 0)"
proof -
  obtain es where t: "trace (snd (loop (b, w))) = trace w @ hb_events b w @ es"
    and f: "filter is_heartbeat es = []"
    using tick_decomp [of b w] by blast
  have "tick_events b w = hb_events b w @ es"
    using t by (rule tick_events_eq)
  then have "heartbeats_fired (tick_events b w) = heartbeats_fired (hb_events b w)"
    using f by (simp add: heartbeats_fired_def)
  then show ?thesis by (simp add: hb_events_fired)
qed

lemma elapsed_word:
  fixes t0 t :: nat
  assumes "t0 \<le> t" and "t - t0 < 2 ^ 32"
  shows "unat ((of_nat t :: u32) - of_nat t0) = t - t0"
proof -
  have "(of_nat t :: u32) - of_nat t0 = of_nat (t - t0)"
    using assms(1) by (simp add: of_nat_diff)
  moreover have "unat (of_nat (t - t0) :: u32) = t - t0"
    using assms(2) by (simp add: unat_of_nat)
  ultimately show ?thesis by simp
qed

text \<open>
  Claim C6. In every tick, whatever the state (also \<open>ERROR\<close>), exactly one heartbeat fires when
  the time elapsed since the last firing is at least 5000 ms, and none fires when it is less.
  The elapsed time is the 32-bit difference \<open>now - lastHeartbeat\<close> the program computes; it
  is the true elapsed time whenever that is below \<open>2 ^ 32\<close> ms, across a wrap of the clock too.
\<close>

theorem C6_heartbeat_iff_period_elapsed:
  "heartbeats_fired (tick_events b w) = (if 5000 \<le> unat (millis w - lastHeartbeat b) then 1 else 0) \<and>
   (lastHeartbeat b = of_nat t0 \<and> millis w = of_nat t \<and> t0 \<le> t \<and> t - t0 < 2 ^ 32 \<longrightarrow>
      unat (millis w - lastHeartbeat b) = t - t0)"
proof -
  have "(5000 \<le> millis w - lastHeartbeat b) = (5000 \<le> unat (millis w - lastHeartbeat b))"
    by (simp add: word_le_nat_alt)
  then show ?thesis
    by (simp add: tick_heartbeats elapsed_word)
qed

theorem C6_heartbeat_iff_period_elapsed_witness:
  "heartbeats_fired (tick_events (initial\<lparr>currentState := ERROR, lastHeartbeat := 1000\<rparr>)
                                 (quiet_world\<lparr>millis := 6000\<rparr>)) = 1 \<and>
   heartbeats_fired (tick_events (initial\<lparr>currentState := ERROR, lastHeartbeat := 1000\<rparr>)
                                 (quiet_world\<lparr>millis := 5999\<rparr>)) = 0 \<and>
   unat (millis (quiet_world\<lparr>millis := 6000\<rparr>)
         - lastHeartbeat (initial\<lparr>currentState := ERROR, lastHeartbeat := 1000\<rparr>)) = 5000"
  using C6_heartbeat_iff_period_elapsed
          [of "initial\<lparr>currentState := ERROR, lastHeartbeat := 1000\<rparr>"
              "quiet_world\<lparr>millis := 6000\<rparr>" 1000 6000]
        C6_heartbeat_iff_period_elapsed
          [of "initial\<lparr>currentState := ERROR, lastHeartbeat := 1000\<rparr>"
              "quiet_world\<lparr>millis := 5999\<rparr>" 1000 5999]
  by (simp add: quiet_world_def initial_def)

section \<open>Heartbeat bookkeeping\<close>

lemma tick_clock:
  "lastHeartbeat (fst (loop (b, w))) =
     (if 5000 \<le> millis w - lastHeartbeat b then millis w else lastHeartbeat b) \<and>
   heartbeatCount (fst (loop (b, w))) =
     (if 5000 \<le> millis w - lastHeartbeat b then heartbeatCount b + 1 else heartbeatCount b)"
  using tick_decomp [of b w] by (auto simp: hb_bridge_eval)

lemma unat_suc_u32:
  fixes c :: u32
  assumes "unat c + 1 < 2 ^ 32"
  shows "unat (c + 1) = unat c + 1"
  using assms by (simp add: unat_word_ariths)

lemma tick_count_nat:
  assumes "unat (heartbeatCount b) + 1 < 2 ^ 32"
  shows "unat (heartbeatCount b) \<le> unat (heartbeatCount (fst (loop (b, w)))) \<and>
         unat (heartbeatCount (fst (loop (b, w)))) \<le> unat (heartbeatCount b) + 1"
  using unat_suc_u32 [OF assms] by (simp add: tick_clock)

lemma run_count_nat:
  "unat (heartbeatCount b) + length ws < 2 ^ 32 \<Longrightarrow>
   unat (heartbeatCount b) \<le> unat (heartbeatCount (fst (run (b, tr) ws))) \<and>
   unat (heartbeatCount (fst (run (b, tr) ws))) \<le> unat (heartbeatCount b) + length ws"
proof (induction ws arbitrary: b tr)
  case Nil
  then show ?case by simp
next
  case (Cons w ws)
  let ?w = "w\<lparr>trace := tr\<rparr>"
  let ?b = "fst (loop (b, ?w))"
  have small: "unat (heartbeatCount b) + 1 < 2 ^ 32"
    using Cons.prems by simp
  note step = tick_count_nat [OF small, of ?w]
  have "unat (heartbeatCount ?b) + length ws < 2 ^ 32"
    using step Cons.prems by simp
  note ih = Cons.IH [OF this, of "trace (snd (loop (b, ?w)))"]
  have r: "run (b, tr) (w # ws) = run (?b, trace (snd (loop (b, ?w)))) ws"
    by (simp add: split_beta)
  show ?case
    unfolding r using ih step by simp
qed

text \<open>
  Claim C9, amended. A firing sets \<open>lastHeartbeat\<close> to the clock reading of the tick and adds
  one to \<open>heartbeatCount\<close> modulo \<open>2 ^ 32\<close>; a tick fires one heartbeat at most, however
  many periods have elapsed; without a firing both are unchanged. Over a run of ticks the counter
  does not decrease as long as it cannot reach \<open>2 ^ 32\<close>.
\<close>

theorem C9_heartbeat_bookkeeping:
  "(5000 \<le> millis w - lastHeartbeat b \<longrightarrow>
      lastHeartbeat (fst (loop (b, w))) = millis w \<and>
      heartbeatCount (fst (loop (b, w))) = heartbeatCount b + 1 \<and>
      heartbeats_fired (tick_events b w) = 1) \<and>
   (\<not> 5000 \<le> millis w - lastHeartbeat b \<longrightarrow>
      lastHeartbeat (fst (loop (b, w))) = lastHeartbeat b \<and>
      heartbeatCount (fst (loop (b, w))) = heartbeatCount b \<and>
      heartbeats_fired (tick_events b w) = 0) \<and>
   (unat (heartbeatCount b) + length ws < 2 ^ 32 \<longrightarrow>
      heartbeatCount b \<le> heartbeatCount (fst (run (b, tr) ws)))"
  using run_count_nat [of b ws tr]
  by (simp add: tick_clock tick_heartbeats word_le_nat_alt)

theorem C9_heartbeat_bookkeeping_witness:
  "lastHeartbeat (fst (loop (initial, quiet_world\<lparr>millis := 12000\<rparr>))) = 12000 \<and>
   heartbeatCount (fst (loop (initial, quiet_world\<lparr>millis := 12000\<rparr>))) = 1 \<and>
   heartbeats_fired (tick_events initial (quiet_world\<lparr>millis := 12000\<rparr>)) = 1 \<and>
   lastHeartbeat (fst (loop (initial, quiet_world\<lparr>millis := 4999\<rparr>))) = 0 \<and>
   heartbeatCount (fst (loop (initial, quiet_world\<lparr>millis := 4999\<rparr>))) = 0 \<and>
   heartbeats_fired (tick_events initial (quiet_world\<lparr>millis := 4999\<rparr>)) = 0 \<and>
   heartbeatCount initial \<le>
     heartbeatCount (fst (run (initial, []) [quiet_world\<lparr>millis := 12000\<rparr>, quiet_world\<lparr>millis := 12010\<rparr>]))"
  using C9_heartbeat_bookkeeping [of "quiet_world\<lparr>millis := 12000\<rparr>" initial
          "[quiet_world\<lparr>millis := 12000\<rparr>, quiet_world\<lparr>millis := 12010\<rparr>]" "[]"]
        C9_heartbeat_bookkeeping [of "quiet_world\<lparr>millis := 4999\<rparr>" initial "[]" "[]"]
  by (simp add: quiet_world_def initial_def)

text \<open>
  Claim C9 as stated fails where the 32-bit counter wraps: at \<open>heartbeatCount = 2 ^ 32 - 1\<close>
  a firing takes it to 0.
\<close>

theorem C9_counter_wraps:
  "heartbeatCount (fst (loop (initial\<lparr>currentState := AP_READY, heartbeatCount := 4294967295\<rparr>,
                              quiet_world\<lparr>millis := 5000\<rparr>))) = 0 \<and>
   \<not> heartbeatCount (initial\<lparr>currentState := AP_READY, heartbeatCount := 4294967295\<rparr>)
      \<le> heartbeatCount (fst (loop (initial\<lparr>currentState := AP_READY, heartbeatCount := 4294967295\<rparr>,
                              quiet_world\<lparr>millis := 5000\<rparr>)))"
  by (simp add: tick_clock quiet_world_def initial_def)

section \<open>Observations on traces\<close>

lemma reads_of_append: "reads_of (xs @ ys) = reads_of xs @ reads_of ys"
  by (induction xs rule: reads_of.induct) simp_all

lemma delays_of_append: "delays_of (xs @ ys) = delays_of xs @ delays_of ys"
  by (induction xs rule: delays_of.induct) simp_all

lemma stops_of_append: "stops_of (xs @ ys) = stops_of xs @ stops_of ys"
  by (induction xs rule: stops_of.induct) simp_all

lemma hb_events_quiet [simp]:
  "reads_of (hb_events b w) = []"
  "delays_of (hb_events b w) = []"
  "stops_of (hb_events b w) = []"
  "E_accept p \<notin> set (hb_events b w)"
  "E_stop p \<notin> set (hb_events b w)"
  "E_state s \<notin> set (hb_events b w)"
  by (simp_all add: hb_events_eval)

lemma drain_events_quiet [simp]:
  "stops_of (drain_events s xs) = []"
  "E_accept p \<notin> set (drain_events s xs)"
  "E_stop p \<notin> set (drain_events s xs)"
  by (induction xs arbitrary: s) simp_all

section \<open>The session handler: activity and disconnection\<close>

lemma tick_events_session_up:
  assumes "currentState b = CLIENT_CONNECTED \<or> currentState b = AA_ACTIVE"
      and "connected (aaClient b) w"
  shows "tick_events b w = hb_events b w @ drain_events (currentState b) (rx w) @ [E_delay 10]"
  using loop_session_up_eval(6) [OF assms] by (rule tick_events_eq)

lemma tick_events_session_down:
  assumes "currentState b = CLIENT_CONNECTED \<or> currentState b = AA_ACTIVE"
      and "\<not> connected (aaClient b) w"
  shows "tick_events b w = hb_events b w @ E_state AP_READY #
           (case aaClient b of None \<Rightarrow> [] | Some s \<Rightarrow> [E_stop s]) @ [E_delay 10]"
  by (rule tick_events_eq) (simp add: loop_session_down [OF assms])

lemma tick_reads:
  assumes "currentState b = CLIENT_CONNECTED \<or> currentState b = AA_ACTIVE"
  shows "reads_of (tick_events b w) = (if connected (aaClient b) w then rx w else [])"
proof (cases "connected (aaClient b) w")
  case True
  then show ?thesis
    by (simp add: tick_events_session_up [OF assms True] reads_of_append drain_events_reads)
next
  case False
  then show ?thesis
    by (simp add: tick_events_session_down [OF assms False] reads_of_append split: option.splits)
qed

lemma tick_session_state:
  assumes "currentState b = CLIENT_CONNECTED \<or> currentState b = AA_ACTIVE"
  shows "currentState (fst (loop (b, w))) =
     (if \<not> connected (aaClient b) w then AP_READY
      else if currentState b = CLIENT_CONNECTED \<and> (\<exists>len \<in> set (rx w). 0 < len) then AA_ACTIVE
      else currentState b)"
proof (cases "connected (aaClient b) w")
  case True
  then show ?thesis using loop_session_up_eval(1) [OF assms True] by simp
next
  case False
  then show ?thesis by (simp add: loop_session_down [OF assms False])
qed

lemma run_active:
  "currentState b = AA_ACTIVE \<Longrightarrow> \<forall>w \<in> set ws. connected (aaClient b) w \<Longrightarrow>
   currentState (fst (run (b, tr) ws)) = AA_ACTIVE \<and> aaClient (fst (run (b, tr) ws)) = aaClient b"
proof (induction ws arbitrary: b tr)
  case Nil
  then show ?case by simp
next
  case (Cons w ws)
  let ?w = "w\<lparr>trace := tr\<rparr>"
  let ?b = "fst (loop (b, ?w))"
  have s: "currentState b = CLIENT_CONNECTED \<or> currentState b = AA_ACTIVE"
    using Cons.prems(1) by simp
  have up: "connected (aaClient b) ?w"
    using Cons.prems(2) by simp
  have st: "currentState ?b = AA_ACTIVE"
    using loop_session_up_eval(1) [OF s up] Cons.prems(1) by simp
  have cl: "aaClient ?b = aaClient b"
    by (rule loop_session_up_eval(2) [OF s up])
  have "\<forall>w \<in> set ws. connected (aaClient ?b) w"
    using Cons.prems(2) cl by simp
  note ih = Cons.IH [OF st this, of "trace (snd (loop (b, ?w)))"]
  have r: "run (b, tr) (w # ws) = run (?b, trace (snd (loop (b, ?w)))) ws"
    by (simp add: split_beta)
  show ?case
    unfolding r using ih cl by simp
qed

text \<open>
  Claim C4. From \<open>CLIENT_CONNECTED\<close>, a tick in which some read returns a positive length
  ends in \<open>AA_ACTIVE\<close>. From \<open>AA_ACTIVE\<close> a tick ends in \<open>AA_ACTIVE\<close>, or in
  \<open>AP_READY\<close> when the peer is found disconnected, never in \<open>CLIENT_CONNECTED\<close>; and
  over any run of ticks in which the session stays live the state stays \<open>AA_ACTIVE\<close> and
  \<open>aaClient\<close> stays the same.
\<close>

theorem C4_first_activity_and_no_downgrade:
  "(currentState b = CLIENT_CONNECTED \<and> (\<exists>len \<in> set (reads_of (tick_events b w)). 0 < len) \<longrightarrow>
      currentState (fst (loop (b, w))) = AA_ACTIVE) \<and>
   (currentState b = AA_ACTIVE \<longrightarrow>
      currentState (fst (loop (b, w))) =
        (if connected (aaClient b) w then AA_ACTIVE else AP_READY)) \<and>
   (currentState b = AA_ACTIVE \<and> (\<forall>w \<in> set ws. connected (aaClient b) w) \<longrightarrow>
      currentState (fst (run (b, tr) ws)) = AA_ACTIVE \<and>
      aaClient (fst (run (b, tr) ws)) = aaClient b)"
  using run_active [of b ws tr]
  by (auto simp: tick_reads tick_session_state split: if_splits)

theorem C4_first_activity_and_no_downgrade_witness:
  "currentState (fst (loop (session_bridge CLIENT_CONNECTED,
                            quiet_world\<lparr>peers_up := {1}, rx := [0, 7]\<rparr>))) = AA_ACTIVE \<and>
   currentState (fst (loop (session_bridge AA_ACTIVE,
                            quiet_world\<lparr>peers_up := {1}, rx := [3]\<rparr>))) = AA_ACTIVE \<and>
   currentState (fst (run (session_bridge AA_ACTIVE, [])
                   [quiet_world\<lparr>peers_up := {1}, rx := [3]\<rparr>, quiet_world\<lparr>peers_up := {1}\<rparr>]))
     = AA_ACTIVE"
  using C4_first_activity_and_no_downgrade
          [of "session_bridge CLIENT_CONNECTED" "quiet_world\<lparr>peers_up := {1}, rx := [0, 7]\<rparr>"
              "[]" "[]"]
        C4_first_activity_and_no_downgrade
          [of "session_bridge AA_ACTIVE" "quiet_world\<lparr>peers_up := {1}, rx := [3]\<rparr>"
              "[quiet_world\<lparr>peers_up := {1}, rx := [3]\<rparr>, quiet_world\<lparr>peers_up := {1}\<rparr>]" "[]"]
  by (simp add: tick_reads session_bridge_def quiet_world_def peerX_def connected_Some)

text \<open>
  Claim C10, amended. In a tick that starts in \<open>CLIENT_CONNECTED\<close> with the peer still
  connected, if every read performed returns zero or less the state is still
  \<open>CLIENT_CONNECTED\<close> at the end; and a tick from \<open>CLIENT_CONNECTED\<close> ends in
  \<open>AA_ACTIVE\<close> only if some read returned a positive length.
\<close>

theorem C10_activity_needs_positive_read:
  "(currentState b = CLIENT_CONNECTED \<and> connected (aaClient b) w \<and>
      (\<forall>len \<in> set (reads_of (tick_events b w)). len \<le> 0) \<longrightarrow>
      currentState (fst (loop (b, w))) = CLIENT_CONNECTED) \<and>
   (currentState b = CLIENT_CONNECTED \<and> currentState (fst (loop (b, w))) = AA_ACTIVE \<longrightarrow>
      (\<exists>len \<in> set (reads_of (tick_events b w)). 0 < len))"
proof (cases "currentState b = CLIENT_CONNECTED")
  case False
  then show ?thesis by simp
next
  case True
  then have s: "currentState b = CLIENT_CONNECTED \<or> currentState b = AA_ACTIVE" by simp
  have pos: "(\<exists>len \<in> set (rx w). 0 < len) = (\<not> (\<forall>len \<in> set (rx w). len \<le> 0))"
    by (meson not_le)
  show ?thesis
  proof (cases "connected (aaClient b) w")
    case up: True
    show ?thesis
      using True up by (simp add: tick_reads [OF s] tick_session_state [OF s] pos)
  next
    case down: False
    show ?thesis
      using True down by (simp add: tick_reads [OF s] tick_session_state [OF s])
  qed
qed

theorem C10_activity_needs_positive_read_witness:
  "currentState (fst (loop (session_bridge CLIENT_CONNECTED,
                            quiet_world\<lparr>peers_up := {1}, rx := [0, -1]\<rparr>))) = CLIENT_CONNECTED \<and>
   reads_of (tick_events (session_bridge CLIENT_CONNECTED)
                         (quiet_world\<lparr>peers_up := {1}, rx := [0, -1]\<rparr>)) = [0, -1]"
  using C10_activity_needs_positive_read
          [of "session_bridge CLIENT_CONNECTED" "quiet_world\<lparr>peers_up := {1}, rx := [0, -1]\<rparr>"]
  by (simp add: tick_reads session_bridge_def quiet_world_def peerX_def connected_Some)

text \<open>
  Claim C10 as stated fails in a tick that finds the peer disconnected: no read is performed, so
  every read performed returned zero or less, and the tick ends in \<open>AP_READY\<close>.
\<close>

theorem C10_disconnect_tick_leaves_state:
  "currentState (session_bridge CLIENT_CONNECTED) = CLIENT_CONNECTED \<and>
   reads_of (tick_events (session_bridge CLIENT_CONNECTED) quiet_world) = [] \<and>
   currentState (fst (loop (session_bridge CLIENT_CONNECTED, quiet_world))) = AP_READY"
  by (simp add: tick_reads tick_session_state session_bridge_def quiet_world_def peerX_def
        connected_Some)

text \<open>
  Claim C5. A tick in \<open>CLIENT_CONNECTED\<close> or \<open>AA_ACTIVE\<close> that finds the peer
  disconnected ends in \<open>AP_READY\<close> with the socket released (\<open>aaClient\<close> holds none);
  beyond the heartbeat it only sets the state, stops the socket if one was held, and delays:
  no read is made and the pending reads are untouched. Stopping the released handle again
  changes nothing.
\<close>

theorem C5_disconnect_releases_session:
  assumes "currentState b = CLIENT_CONNECTED \<or> currentState b = AA_ACTIVE"
      and "\<not> connected (aaClient b) w"
  shows "currentState (fst (loop (b, w))) = AP_READY \<and>
         aaClient (fst (loop (b, w))) = None \<and>
         tick_events b w = hb_events b w @ E_state AP_READY #
           (case aaClient b of None \<Rightarrow> [] | Some s \<Rightarrow> [E_stop s]) @ [E_delay 10] \<and>
         reads_of (tick_events b w) = [] \<and>
         rx (snd (loop (b, w))) = rx w \<and>
         stop (aaClient (fst (loop (b, w)))) (snd (loop (b, w))) = (None, snd (loop (b, w)))"
  using assms tick_reads [OF assms(1), of w] tick_events_session_down [OF assms]
  by (simp add: loop_session_down [OF assms] stop_def)

theorem C5_disconnect_releases_session_witness:
  "currentState (fst (loop (session_bridge AA_ACTIVE, quiet_world\<lparr>rx := [5]\<rparr>))) = AP_READY \<and>
   aaClient (fst (loop (session_bridge AA_ACTIVE, quiet_world\<lparr>rx := [5]\<rparr>))) = None \<and>
   tick_events (session_bridge AA_ACTIVE) (quiet_world\<lparr>rx := [5]\<rparr>) =
     [E_state AP_READY, E_stop peerX, E_delay 10] \<and>
   reads_of (tick_events (session_bridge AA_ACTIVE) (quiet_world\<lparr>rx := [5]\<rparr>)) = [] \<and>
   rx (snd (loop (session_bridge AA_ACTIVE, quiet_world\<lparr>rx := [5]\<rparr>))) = [5]"
  using C5_disconnect_releases_session
          [of "session_bridge AA_ACTIVE" "quiet_world\<lparr>rx := [5]\<rparr>"]
  by (simp add: session_bridge_def quiet_world_def peerX_def connected_Some hb_events_eval)

section \<open>Admission\<close>

lemma tick_reject_only_when_ready:
  assumes "E_accept p \<in> set (tick_events b w)" and "E_stop p \<in> set (tick_events b w)"
  shows "currentState b = AP_READY \<and> connected (aaClient b) w \<and> (\<exists>rest. backlog w = p # rest)"
proof (cases "currentState b")
  case INIT
  then have "tick_events b w = hb_events b w @ [E_delay 10]"
    by (intro tick_events_eq) (simp add: loop_idle)
  with assms show ?thesis by simp
next
  case AP_STARTING
  then have "tick_events b w = hb_events b w @ [E_delay 10]"
    by (intro tick_events_eq) (simp add: loop_idle)
  with assms show ?thesis by simp
next
  case AP_READY
  show ?thesis
  proof (cases "backlog w")
    case Nil
    with AP_READY have "tick_events b w = hb_events b w @ [E_delay 10]"
      by (intro tick_events_eq) (simp add: loop_ready_idle)
    with assms show ?thesis by simp
  next
    case (Cons q rest)
    show ?thesis
    proof (cases "connected (aaClient b) w")
      case True
      with AP_READY Cons
      have "tick_events b w = hb_events b w @ [E_accept q, E_stop q, E_delay 10]"
        by (intro tick_events_eq) (simp add: loop_ready_reject)
      with assms AP_READY Cons True show ?thesis by simp
    next
      case False
      with AP_READY Cons
      have "tick_events b w = hb_events b w @ [E_accept q, E_state CLIENT_CONNECTED, E_delay 10]
          \<or> tick_events b w = hb_events b w @ [E_accept q, E_delay 10]"
        by (cases "fd q \<in> peers_up w")
           (simp_all add: tick_events_def loop_ready_admit loop_ready_stale)
      with assms show ?thesis by auto
    qed
  qed
next
  case CLIENT_CONNECTED
  then have s: "currentState b = CLIENT_CONNECTED \<or> currentState b = AA_ACTIVE" by simp
  show ?thesis
    using assms(1) tick_events_session_up [OF s] tick_events_session_down [OF s]
    by (cases "connected (aaClient b) w") (auto split: option.splits)
next
  case AA_ACTIVE
  then have s: "currentState b = CLIENT_CONNECTED \<or> currentState b = AA_ACTIVE" by simp
  show ?thesis
    using assms(1) tick_events_session_up [OF s] tick_events_session_down [OF s]
    by (cases "connected (aaClient b) w") (auto split: option.splits)
next
  case ERROR
  then have "E_accept p \<notin> set (tick_events b w)"
    by (simp add: tick_events_def loop_error_eval)
  with assms show ?thesis by simp
qed

text \<open>
  Claim C1, on the code. With peer X live in \<open>AA_ACTIVE\<close> and peer Y pending, a tick
  neither accepts nor releases Y: the tick only delays, and Y is still in the backlog. When
  X disconnects later, the next tick in \<open>AP_READY\<close> admits Y as the session.
\<close>

theorem C1_second_peer_stays_pending:
  "loop (session_bridge AA_ACTIVE, quiet_world\<lparr>backlog := [peerY], peers_up := {1, 2}\<rparr>) =
     (session_bridge AA_ACTIVE,
      quiet_world\<lparr>millis := 10, backlog := [peerY], peers_up := {1, 2}, trace := [E_delay 10]\<rparr>) \<and>
   run (session_bridge AA_ACTIVE, [])
       [quiet_world\<lparr>backlog := [peerY], peers_up := {1, 2}\<rparr>,
        quiet_world\<lparr>backlog := [peerY], peers_up := {2}\<rparr>,
        quiet_world\<lparr>backlog := [peerY], peers_up := {2}\<rparr>] =
     ((session_bridge CLIENT_CONNECTED)\<lparr>aaClient := Some peerY\<rparr>,
      [E_delay 10, E_state AP_READY, E_stop peerX, E_delay 10,
       E_accept peerY, E_state CLIENT_CONNECTED, E_delay 10])"
  by (simp add: loop_def dispatch_def heartbeat_def handleClient_def drain.simps available_def
        connected_def hasClient_def server_available_def stop_def set_state_def delay_def
        emit_def session_bridge_def quiet_world_def peerX_def peerY_def)

section \<open>Recovery\<close>




lemma tick_events_error:
  assumes "currentState b = ERROR"
  shows "tick_events b w = hb_events b w @ E_delay 5000 # bring_up_events w @ [E_delay 10]"
  by (rule tick_events_eq)
     (simp add: loop_error_eval [OF assms] bring_up_events_def setupWiFiAP_eval)

lemma bring_up_events_eval:
  "bring_up_events w =
     [E_state AP_STARTING, E_WiFi_disconnect True, E_WiFi_mode_AP,
      E_softAPConfig AP_IP AP_GATEWAY AP_SUBNET] @
     (if softAPConfig_ok w then
        E_softAP AP_SSID AP_PASSWORD AP_CHANNEL AP_HIDDEN AP_MAX_CONNECTIONS #
          (if softAP_ok w then [E_server_begin AA_PORT, E_server_setNoDelay True, E_state AP_READY]
           else [E_state ERROR])
      else [E_state ERROR])"
  by (simp add: bring_up_events_def setupWiFiAP_eval)



lemma bring_ups_of_append: "bring_ups_of (xs @ ys) = bring_ups_of xs + bring_ups_of ys"
  by (induction xs rule: bring_ups_of.induct) simp_all

lemma hb_events_bring_ups [simp]: "bring_ups_of (hb_events b w) = 0"
  by (simp add: hb_events_eval)

lemma trace_after_tick:
  "trace (snd (loop (b, w))) = trace w @ tick_events b w"
  using tick_decomp [of b w] by (auto simp: tick_events_def)

lemma tick_error_failed:
  assumes "currentState b = ERROR" and "\<not> (softAPConfig_ok w \<and> softAP_ok w)"
  shows "fst (loop (b, w)) = hb_bridge b w"
    and "delays_of (tick_events b w) = [5000, 10]"
    and "bring_ups_of (tick_events b w) = 1"
proof -
  show "fst (loop (b, w)) = hb_bridge b w"
    using assms by (auto simp: loop_error_eval hb_bridge_eval)
  show "delays_of (tick_events b w) = [5000, 10]"
    by (simp add: tick_events_error [OF assms(1)] bring_up_events_eval delays_of_append)
  show "bring_ups_of (tick_events b w) = 1"
    by (simp add: tick_events_error [OF assms(1)] bring_up_events_eval bring_ups_of_append)
qed

lemma run_error_failing:
  "currentState b = ERROR \<Longrightarrow> \<forall>w \<in> set ws. \<not> (softAPConfig_ok w \<and> softAP_ok w) \<Longrightarrow>
   currentState (fst (run (b, tr) ws)) = ERROR \<and>
   aaClient (fst (run (b, tr) ws)) = aaClient b \<and>
   clientConnectedTime (fst (run (b, tr) ws)) = clientConnectedTime b \<and>
   delays_of (snd (run (b, tr) ws)) = delays_of tr @ concat (replicate (length ws) [5000, 10]) \<and>
   bring_ups_of (snd (run (b, tr) ws)) = bring_ups_of tr + length ws"
proof (induction ws arbitrary: b tr)
  case Nil
  then show ?case by simp
next
  case (Cons w ws)
  let ?w = "w\<lparr>trace := tr\<rparr>"
  let ?b = "fst (loop (b, ?w))"
  let ?tr = "trace (snd (loop (b, ?w)))"
  have fail: "\<not> (softAPConfig_ok ?w \<and> softAP_ok ?w)"
    using Cons.prems(2) by simp
  note t = tick_error_failed [OF Cons.prems(1) fail]
  have st: "currentState ?b = ERROR"
    using t(1) Cons.prems(1) by simp
  have "\<forall>w \<in> set ws. \<not> (softAPConfig_ok w \<and> softAP_ok w)"
    using Cons.prems(2) by simp
  note ih = Cons.IH [OF st this, of ?tr]
  have tr: "?tr = tr @ tick_events b ?w"
    using trace_after_tick [of b ?w] by simp
  have r: "run (b, tr) (w # ws) = run (?b, ?tr) ws"
    by (simp add: split_beta)
  show ?case
    unfolding r using ih t
    by (simp add: tr delays_of_append bring_ups_of_append)
qed

text \<open>
  Claim C7. A tick in \<open>ERROR\<close> delays 5000 ms, sets the state to \<open>AP_STARTING\<close> and
  makes the calls of a bring-up, which are those \<open>setup()\<close> made, with the same constants;
  it ends in \<open>AP_READY\<close> on success and in \<open>ERROR\<close> otherwise. A failed attempt leaves
  the globals as the heartbeat step left them: nothing counts failures. Over any run of failing
  ticks the state stays \<open>ERROR\<close>, every tick starts one bring-up, and the delays are
  5000 and 10 ms every time.
\<close>

theorem C7_error_retries_forever:
  "(currentState b = ERROR \<longrightarrow>
      tick_events b w = hb_events b w @ E_delay 5000 # bring_up_events w @ [E_delay 10] \<and>
      currentState (fst (loop (b, w))) =
        (if softAPConfig_ok w \<and> softAP_ok w then AP_READY else ERROR)) \<and>
   trace (snd (setup_main (b0, w))) = trace w @ E_delay 1000 # bring_up_events w \<and>
   bring_up_events w =
     [E_state AP_STARTING, E_WiFi_disconnect True, E_WiFi_mode_AP,
      E_softAPConfig AP_IP AP_GATEWAY AP_SUBNET] @
     (if softAPConfig_ok w then
        E_softAP AP_SSID AP_PASSWORD AP_CHANNEL AP_HIDDEN AP_MAX_CONNECTIONS #
          (if softAP_ok w then [E_server_begin AA_PORT, E_server_setNoDelay True, E_state AP_READY]
           else [E_state ERROR])
      else [E_state ERROR]) \<and>
   (currentState b = ERROR \<and> \<not> (softAPConfig_ok w \<and> softAP_ok w) \<longrightarrow>
      fst (loop (b, w)) = hb_bridge b w) \<and>
   (currentState b = ERROR \<and> (\<forall>w \<in> set ws. \<not> (softAPConfig_ok w \<and> softAP_ok w)) \<longrightarrow>
      currentState (fst (run (b, tr) ws)) = ERROR \<and>
      delays_of (snd (run (b, tr) ws)) =
        delays_of tr @ concat (replicate (length ws) [5000, 10]) \<and>
      bring_ups_of (snd (run (b, tr) ws)) = bring_ups_of tr + length ws)"
proof -
  have boot_tr: "trace (snd (setup_main (b0, w))) = trace w @ E_delay 1000 # bring_up_events w"
    by (simp add: setup_main_def setupWiFiAP_eval bring_up_events_eval delay_def emit_def)
  have st: "currentState b = ERROR \<Longrightarrow> currentState (fst (loop (b, w))) =
        (if softAPConfig_ok w \<and> softAP_ok w then AP_READY else ERROR)"
    by (simp add: loop_error_eval)
  show ?thesis
    using run_error_failing [of b ws tr] tick_error_failed(1) [of b w] st
    by (simp add: tick_events_error boot_tr bring_up_events_eval)
qed

theorem C7_error_retries_forever_witness:
  "tick_events (initial\<lparr>currentState := ERROR\<rparr>) (quiet_world\<lparr>softAPConfig_ok := False\<rparr>) =
     [E_delay 5000, E_state AP_STARTING, E_WiFi_disconnect True, E_WiFi_mode_AP,
      E_softAPConfig (192, 168, 4, 1) (192, 168, 4, 1) (255, 255, 255, 0), E_state ERROR,
      E_delay 10] \<and>
   trace (snd (setup_main (initial, quiet_world\<lparr>softAPConfig_ok := False\<rparr>))) =
     [E_delay 1000, E_state AP_STARTING, E_WiFi_disconnect True, E_WiFi_mode_AP,
      E_softAPConfig (192, 168, 4, 1) (192, 168, 4, 1) (255, 255, 255, 0), E_state ERROR] \<and>
   fst (loop (initial\<lparr>currentState := ERROR\<rparr>, quiet_world\<lparr>softAPConfig_ok := False\<rparr>)) =
     initial\<lparr>currentState := ERROR\<rparr> \<and>
   currentState (fst (run (initial\<lparr>currentState := ERROR\<rparr>, [])
     [quiet_world\<lparr>softAPConfig_ok := False\<rparr>, quiet_world\<lparr>softAP_ok := False\<rparr>,
      quiet_world\<lparr>softAPConfig_ok := False\<rparr>])) = ERROR \<and>
   delays_of (snd (run (initial\<lparr>currentState := ERROR\<rparr>, [])
     [quiet_world\<lparr>softAPConfig_ok := False\<rparr>, quiet_world\<lparr>softAP_ok := False\<rparr>,
      quiet_world\<lparr>softAPConfig_ok := False\<rparr>])) = [5000, 10, 5000, 10, 5000, 10] \<and>
   bring_ups_of (snd (run (initial\<lparr>currentState := ERROR\<rparr>, [])
     [quiet_world\<lparr>softAPConfig_ok := False\<rparr>, quiet_world\<lparr>softAP_ok := False\<rparr>,
      quiet_world\<lparr>softAPConfig_ok := False\<rparr>])) = 3"
  using C7_error_retries_forever
          [of "initial\<lparr>currentState := ERROR\<rparr>" "quiet_world\<lparr>softAPConfig_ok := False\<rparr>" initial
              "[quiet_world\<lparr>softAPConfig_ok := False\<rparr>, quiet_world\<lparr>softAP_ok := False\<rparr>,
                quiet_world\<lparr>softAPConfig_ok := False\<rparr>]" "[]"]
  by (simp add: quiet_world_def initial_def hb_events_eval hb_bridge_eval
        AP_IP_def AP_GATEWAY_def AP_SUBNET_def)

section \<open>A second peer while a session is live\<close>

lemma hb_backlog [simp]:
  "hb_bridge b (w\<lparr>backlog := bl\<rparr>) = hb_bridge b w"
  "hb_events b (w\<lparr>backlog := bl\<rparr>) = hb_events b w"
  by (simp_all add: hb_bridge_eval hb_events_eval)

lemma bring_up_events_backlog [simp]:
  "bring_up_events (w\<lparr>backlog := bl\<rparr>) = bring_up_events w"
  by (simp add: bring_up_events_eval)

lemma tick_events_idle:
  assumes "currentState b = INIT \<or> currentState b = AP_STARTING"
  shows "tick_events b w = hb_events b w @ [E_delay 10]"
  by (rule tick_events_eq) (simp add: loop_idle [OF assms])

lemma loop_peers_up_session:
  assumes "currentState b = CLIENT_CONNECTED \<or> currentState b = AA_ACTIVE"
  shows "peers_up (snd (loop (b, w))) = peers_up w"
proof (cases "connected (aaClient b) w")
  case True
  let ?p = "(hb_bridge b w, w\<lparr>trace := trace w @ hb_events b w\<rparr>)"
  have "loop (b, w) = (fst (drain ?p), delay 10 (snd (drain ?p)))"
    using loop_session_up [OF assms True] by (simp add: split_beta)
  then show ?thesis
    using drain_world [of ?p] by (simp add: delay_def emit_def)
next
  case False
  then show ?thesis by (simp add: loop_session_down [OF assms False])
qed

text \<open>
  Claim C8. Take any tick, in whatever state, that starts with the session live and another
  connection pending. It leaves \<open>aaClient\<close> (and with it the remote address) and
  \<open>clientConnectedTime\<close> as they were, and it ends with the globals that the same tick
  gives with nothing pending: the state, and so the activity flag, moves by what the session
  does only (the tick ends in \<open>AA_ACTIVE\<close> exactly when it started there, or started in
  \<open>CLIENT_CONNECTED\<close> and read a positive length). The session is still live afterwards.
  In \<open>AP_READY\<close> the tick rejects the pending peer (accepts it and stops it) and stays in
  \<open>AP_READY\<close>; in every other state the peer is left pending and the trace is that of the
  tick with nothing pending. Every tick that rejects a peer starts this way
  (\<open>tick_reject_only_when_ready\<close>).
\<close>

theorem C8_second_peer_leaves_session:
  assumes live: "connected (aaClient b) w" and pend: "backlog w = p # rest"
  shows "aaClient (fst (loop (b, w))) = aaClient b \<and>
    clientConnectedTime (fst (loop (b, w))) = clientConnectedTime b \<and>
    fst (loop (b, w)) = fst (loop (b, w\<lparr>backlog := []\<rparr>)) \<and>
    ((currentState (fst (loop (b, w))) = AA_ACTIVE) =
          (currentState b = AA_ACTIVE \<or>
           currentState b = CLIENT_CONNECTED \<and> (\<exists>len \<in> set (rx w). 0 < len))) \<and>
    connected (aaClient (fst (loop (b, w)))) (snd (loop (b, w))) \<and>
    (if currentState b = AP_READY
     then tick_events b w = hb_events b w @ [E_accept p, E_stop p, E_delay 10] \<and>
          currentState (fst (loop (b, w))) = AP_READY
     else tick_events b w = tick_events b (w\<lparr>backlog := []\<rparr>))"
proof -
  let ?w = "w\<lparr>backlog := []\<rparr>"
  have live': "connected (aaClient b) ?w" using live by simp
  have up: "\<And>c w'. peers_up w' = peers_up w \<Longrightarrow> connected c w' = connected c w"
    by (simp add: connected_def split: option.splits)
  have all: "fst (loop (b, w)) = fst (loop (b, ?w)) \<and>
    aaClient (fst (loop (b, w))) = aaClient b \<and>
    clientConnectedTime (fst (loop (b, w))) = clientConnectedTime b \<and>
    peers_up (snd (loop (b, w))) = peers_up w \<and>
    tick_events b w =
          (if currentState b = AP_READY then hb_events b w @ [E_accept p, E_stop p, E_delay 10]
           else tick_events b ?w) \<and>
    ((currentState (fst (loop (b, w))) = AA_ACTIVE) =
          (currentState b = AA_ACTIVE \<or>
           currentState b = CLIENT_CONNECTED \<and> (\<exists>len \<in> set (rx w). 0 < len)))"
  proof (cases "currentState b")
    case INIT
    then have i: "currentState b = INIT \<or> currentState b = AP_STARTING" by simp
    show ?thesis using INIT by (simp add: loop_idle [OF i] tick_events_idle [OF i])
  next
    case AP_STARTING
    then have i: "currentState b = INIT \<or> currentState b = AP_STARTING" by simp
    show ?thesis using AP_STARTING by (simp add: loop_idle [OF i] tick_events_idle [OF i])
  next
    case AP_READY
    have e: "tick_events b w = hb_events b w @ [E_accept p, E_stop p, E_delay 10]"
      by (rule tick_events_eq) (simp add: loop_ready_reject [OF AP_READY pend live])
    show ?thesis
      using AP_READY e
      by (simp add: loop_ready_reject [OF AP_READY pend live]
            loop_ready_idle [OF AP_READY, of ?w])
  next
    case CLIENT_CONNECTED
    then have s: "currentState b = CLIENT_CONNECTED \<or> currentState b = AA_ACTIVE" by simp
    note u = loop_session_up_eval [OF s live]
    note u' = loop_session_up_eval [OF s live']
    have "fst (loop (b, w)) = fst (loop (b, ?w))"
      by (rule bridge.equality) (simp_all add: u u')
    then show ?thesis
      using CLIENT_CONNECTED u(1,2,3) loop_peers_up_session [OF s, of w]
      by (simp add: tick_events_session_up [OF s live] tick_events_session_up [OF s live'])
  next
    case AA_ACTIVE
    then have s: "currentState b = CLIENT_CONNECTED \<or> currentState b = AA_ACTIVE" by simp
    note u = loop_session_up_eval [OF s live]
    note u' = loop_session_up_eval [OF s live']
    have "fst (loop (b, w)) = fst (loop (b, ?w))"
      by (rule bridge.equality) (simp_all add: u u')
    then show ?thesis
      using AA_ACTIVE u(1,2,3) loop_peers_up_session [OF s, of w]
      by (simp add: tick_events_session_up [OF s live] tick_events_session_up [OF s live'])
  next
    case ERROR
    then show ?thesis
      by (simp add: loop_error_eval tick_events_error)
  qed
  then have "connected (aaClient (fst (loop (b, w)))) (snd (loop (b, w)))"
    using live up [of "snd (loop (b, w))" "aaClient b"] by metis
  moreover have "currentState b = AP_READY \<Longrightarrow> currentState (fst (loop (b, w))) = AP_READY"
    by (simp add: loop_ready_reject [OF _ pend live])
  ultimately show ?thesis using all by auto
qed

lemma reachable_client_connected: "reachable (session_bridge CLIENT_CONNECTED)"
proof -
  let ?w = "quiet_world\<lparr>backlog := [peerX], peers_up := {1}\<rparr>"
  have b0: "fst (setup_main (initial, quiet_world)) = initial\<lparr>currentState := AP_READY\<rparr>"
    by (simp add: setup_main_def setupWiFiAP_eval quiet_world_def delay_def emit_def)
  have r0: "reachable (initial\<lparr>currentState := AP_READY\<rparr>)"
    using reachable.boot [of quiet_world] by (simp only: b0)
  have "fst (loop (initial\<lparr>currentState := AP_READY\<rparr>, ?w)) = session_bridge CLIENT_CONNECTED"
    by (simp add: loop_ready_admit [where p = peerX and rest = "[]"] connected_def
          hb_bridge_eval initial_def quiet_world_def peerX_def session_bridge_def)
  then show ?thesis
    using reachable.tick [OF r0, of ?w] by simp
qed

theorem C8_second_peer_leaves_session_witness:
  "reachable (session_bridge CLIENT_CONNECTED) \<and>
   aaClient (fst (loop (session_bridge CLIENT_CONNECTED,
       quiet_world\<lparr>backlog := [peerY], peers_up := {1, 2}, rx := [7]\<rparr>))) = Some peerX \<and>
   clientConnectedTime (fst (loop (session_bridge CLIENT_CONNECTED,
       quiet_world\<lparr>backlog := [peerY], peers_up := {1, 2}, rx := [7]\<rparr>))) = 0 \<and>
   fst (loop (session_bridge CLIENT_CONNECTED,
       quiet_world\<lparr>backlog := [peerY], peers_up := {1, 2}, rx := [7]\<rparr>)) =
   fst (loop (session_bridge CLIENT_CONNECTED,
       quiet_world\<lparr>backlog := [], peers_up := {1, 2}, rx := [7]\<rparr>)) \<and>
   currentState (fst (loop (session_bridge CLIENT_CONNECTED,
       quiet_world\<lparr>backlog := [peerY], peers_up := {1, 2}, rx := [7]\<rparr>))) = AA_ACTIVE \<and>
   tick_events (session_bridge CLIENT_CONNECTED)
       (quiet_world\<lparr>backlog := [peerY], peers_up := {1, 2}, rx := [7]\<rparr>) =
   tick_events (session_bridge CLIENT_CONNECTED)
       (quiet_world\<lparr>backlog := [], peers_up := {1, 2}, rx := [7]\<rparr>) \<and>
   aaClient (fst (loop (session_bridge AP_READY,
       quiet_world\<lparr>backlog := [peerY], peers_up := {1, 2}\<rparr>))) = Some peerX \<and>
   currentState (fst (loop (session_bridge AP_READY,
       quiet_world\<lparr>backlog := [peerY], peers_up := {1, 2}\<rparr>))) = AP_READY \<and>
   tick_events (session_bridge AP_READY) (quiet_world\<lparr>backlog := [peerY], peers_up := {1, 2}\<rparr>) =
     [E_accept peerY, E_stop peerY, E_delay 10]"
proof -
  let ?c = "session_bridge CLIENT_CONNECTED"
  let ?r = "session_bridge AP_READY"
  let ?w = "quiet_world\<lparr>backlog := [peerY], peers_up := {1, 2}, rx := [7]\<rparr>"
  let ?v = "quiet_world\<lparr>backlog := [peerY], peers_up := {1, 2}\<rparr>"
  have lc: "connected (aaClient ?c) ?w" and lr: "connected (aaClient ?r) ?v"
    by (simp_all add: connected_def session_bridge_def quiet_world_def peerX_def)
  have pw: "backlog ?w = peerY # []" and pv: "backlog ?v = peerY # []"
    by (simp_all add: quiet_world_def)
  have c: "currentState ?c = CLIENT_CONNECTED" "aaClient ?c = Some peerX"
      "clientConnectedTime ?c = 0"
    and r: "currentState ?r = AP_READY" "aaClient ?r = Some peerX"
    by (simp_all add: session_bridge_def)
  have w: "rx ?w = [7]"
      "?w\<lparr>backlog := []\<rparr> = quiet_world\<lparr>backlog := [], peers_up := {1, 2}, rx := [7]\<rparr>"
    by simp_all
  have h: "hb_events ?r ?v = []"
    by (simp add: hb_events_eval session_bridge_def quiet_world_def)
  note t1 = C8_second_peer_leaves_session [OF lc pw, unfolded c w]
  note t2 = C8_second_peer_leaves_session [OF lr pv, unfolded r h]
  have f: "currentState (fst (loop (?c, ?w))) = AA_ACTIVE"
    using t1 [THEN conjunct2, THEN conjunct2, THEN conjunct2, THEN conjunct1] by simp
  have e: "tick_events ?c ?w =
      tick_events ?c (quiet_world\<lparr>backlog := [], peers_up := {1, 2}, rx := [7]\<rparr>)"
    using t1 [THEN conjunct2, THEN conjunct2, THEN conjunct2, THEN conjunct2, THEN conjunct2]
    by simp
  have g: "tick_events ?r ?v = [E_accept peerY, E_stop peerY, E_delay 10] \<and>
      currentState (fst (loop (?r, ?v))) = AP_READY"
    using t2 [THEN conjunct2, THEN conjunct2, THEN conjunct2, THEN conjunct2, THEN conjunct2]
    by simp
  show ?thesis
    using t1 t2 f e g reachable_client_connected by blast
qed

end
